theory Spec2Isabelle
  imports
    Main
    "HOL-Library.Char_ord"
    "HOL-Library.List_Lexorder"
    "HOL-Library.Sublist"
    "HOL-Library.Finite_Map"
    "HOL-Library.Multiset"
    "HOL-Library.Word"
begin

section \<open>Strings\<close>

text \<open>
  A Go \<^verbatim>\<open>string\<close> is a sequence of bytes, here a \<^typ>\<open>string\<close> (a list of
  \<^typ>\<open>char\<close>, one per byte). The order on strings (\<^verbatim>\<open><\<close> in Go, used by
  \<^verbatim>\<open>sort.Strings\<close>) is the lexicographic order on the byte values, which is the order
  of \<^theory_text>\<open>List_Lexorder\<close> over \<^theory_text>\<open>Char_ord\<close>.

  The functions of package \<^verbatim>\<open>strings\<close> that map case or trim blanks work on Unicode
  code points. They are modelled on ASCII text: a byte outside \<^verbatim>\<open>a..z\<close>,
  \<^verbatim>\<open>A..Z\<close> has no other case, and blanks are the six ASCII blanks. A valid part
  name is ASCII text (anything else is percent-encoded).
\<close>

definition upperChar :: "char \<Rightarrow> char" where
  "upperChar c = (if CHR ''a'' \<le> c \<and> c \<le> CHR ''z'' then char_of (of_char c - (32::nat)) else c)"

definition lowerChar :: "char \<Rightarrow> char" where
  "lowerChar c = (if CHR ''A'' \<le> c \<and> c \<le> CHR ''Z'' then char_of (of_char c + (32::nat)) else c)"

definition toUpper :: "string \<Rightarrow> string" where
  "toUpper s = map upperChar s"

definition toLower :: "string \<Rightarrow> string" where
  "toLower s = map lowerChar s"

definition equalFold :: "string \<Rightarrow> string \<Rightarrow> bool" where
  "equalFold s t \<longleftrightarrow> toUpper s = toUpper t"

definition hasPrefix :: "string \<Rightarrow> string \<Rightarrow> bool" where
  "hasPrefix s pre \<longleftrightarrow> prefix pre s"

definition hasSuffix :: "string \<Rightarrow> string \<Rightarrow> bool" where
  "hasSuffix s suf \<longleftrightarrow> suffix suf s"

definition isSpace :: "char \<Rightarrow> bool" where
  "isSpace c \<longleftrightarrow> c \<in> {CHR 0x09, CHR 0x0A, CHR 0x0B, CHR 0x0C, CHR 0x0D, CHR '' ''}"

definition trimSpace :: "string \<Rightarrow> string" where
  "trimSpace s = rev (dropWhile isSpace (rev (dropWhile isSpace s)))"

text \<open>\<^verbatim>\<open>strings.Split(s, "/")\<close>: the pieces between the separators, one more than
  there are separators.\<close>

fun split :: "string \<Rightarrow> char \<Rightarrow> string list" where
  "split [] sep = [[]]"
| "split (c # cs) sep =
     (if c = sep then [] # split cs sep
      else (case split cs sep of [] \<Rightarrow> [[c]] | seg # segs \<Rightarrow> (c # seg) # segs))"

text \<open>\<^verbatim>\<open>filepath.Ext\<close> scans the path from its end up to the last separator and returns
  the suffix that starts at the first dot it meets. \<open>extLoop\<close> is that scan: its first
  argument is what is left of the path, last byte first, its second the bytes already passed.\<close>

fun extLoop :: "string \<Rightarrow> string \<Rightarrow> string" where
  "extLoop [] passed = []"
| "extLoop (c # front) passed =
     (if c = CHR ''/'' then []
      else if c = CHR ''.'' then c # passed
      else extLoop front (c # passed))"

definition Ext :: "string \<Rightarrow> string" where
  "Ext path = extLoop (rev path) []"

section \<open>Errors\<close>

text \<open>
  Modelled from the spec: the constructor \<^verbatim>\<open>newError(code, name)\<close> of the errors of the
  package code, which is declared outside the files modelled here. Its value is
  \<open>OpcError code name\<close>. By the steps of \<^verbatim>\<open>add\<close> in the specification, 112 is the
  error of the duplicated part name and 111 the error of the prefix collision; 208 is the
  error of \<^verbatim>\<open>findType\<close> for a name without content type, and 204 to 206 are the errors
  of a malformed content-types stream.

  The relationship code returns \<^verbatim>\<open>errors.New(message)\<close>: there is one constructor
  for each message of \<^verbatim>\<open>relationship.go\<close>.
\<close>

datatype opc_error =
    ErrRelationshipIDBlank
  | ErrRelationshipTypeBlank
  | ErrTargetNotURI
  | ErrTargetNotRelative
  | ErrSourceNotURI
  | ErrRelationshipsPartTarget
  | ErrRelationshipIDNotUnique
  | OpcError nat string

section \<open>Relationships\<close>

type_synonym TargetMode = int

definition ModeInternal :: TargetMode where
  "ModeInternal = 0"

definition ModeExternal :: TargetMode where
  "ModeExternal = 1"

definition externalMode :: string where
  "externalMode = ''External''"

record Relationship =
  ID :: string
  RelType :: string
  TargetURI :: string
  TargetMode :: TargetMode
  sourceURI :: string

record relationshipXML =
  Id_attr :: string
  Type_attr :: string
  Target_attr :: string
  TargetMode_attr :: string

record relationshipsXML =
  Relationships_xmlns :: string
  RelsXML :: "relationshipXML list"

definition relationship_toXML :: "Relationship \<Rightarrow> relationshipXML" where
  "relationship_toXML r =
     (let targetMode = (if TargetMode r = ModeExternal then externalMode else []);
          x = \<lparr>Id_attr = ID r, Type_attr = RelType r, Target_attr = TargetURI r,
               TargetMode_attr = targetMode\<rparr>
      in if TargetMode r = ModeInternal
            \<and> \<not> hasPrefix (Target_attr x) ''/''
            \<and> \<not> hasPrefix (Target_attr x) [CHR 0x5C]
            \<and> \<not> hasPrefix (Target_attr x) ''.''
         then x\<lparr>Target_attr := ''/'' @ Target_attr x\<rparr>
         else x)"

text \<open>\<^verbatim>\<open>encodeRelationships\<close> hands this value to the XML encoder, after the XML
  declaration.\<close>

definition encodeRelationships :: "Relationship list \<Rightarrow> relationshipsXML" where
  "encodeRelationships rs =
     \<lparr>Relationships_xmlns = ''http://schemas.openxmlformats.org/package/2006/relationships'',
      RelsXML = map relationship_toXML rs\<rparr>"

text \<open>\<^verbatim>\<open>isRelationshipURI\<close>: does the URI name a relationships part?\<close>

definition isRelationshipURI :: "string \<Rightarrow> bool" where
  "isRelationshipURI uri =
     (let up = toUpper uri in
      if \<not> hasSuffix up ''.RELS'' then False
      else if equalFold up ''/_RELS/.RELS'' then True
      else if equalFold up ''_rels/.rels'' then True
      else (let segments = split up (CHR ''/''); ls = length segments in
            if ls \<ge> 3 \<and> length (segments ! (ls - 1)) > length ''.RELS''
            then equalFold (segments ! (ls - 2)) ''_RELS''
            else False))"

text \<open>
  Package \<^verbatim>\<open>net/url\<close> of the Go library is a parameter of the model: the type \<open>'u\<close> of
  parsed URLs with the four operations that the validation calls. \<open>Parse\<close> is \<open>None\<close>
  where \<^verbatim>\<open>url.Parse\<close> returns an error.
\<close>

record 'u url_lib =
  Parse :: "string \<Rightarrow> 'u option"
  String :: "'u \<Rightarrow> string"
  IsAbs :: "'u \<Rightarrow> bool"
  ResolveReference :: "'u \<Rightarrow> 'u \<Rightarrow> 'u"

definition validateRelationshipTarget ::
    "'u url_lib \<Rightarrow> string \<Rightarrow> string \<Rightarrow> TargetMode \<Rightarrow> opc_error option" where
  "validateRelationshipTarget lib source target targetMode =
     (case Parse lib (trimSpace target) of
        None \<Rightarrow> Some ErrTargetNotURI
      | Some uri \<Rightarrow>
          if String lib uri = [] then Some ErrTargetNotURI
          else if targetMode = ModeInternal \<and> IsAbs lib uri then Some ErrTargetNotRelative
          else if targetMode \<noteq> ModeExternal \<and> \<not> IsAbs lib uri then
            (case Parse lib (trimSpace source) of
               None \<Rightarrow> Some ErrSourceNotURI
             | Some src \<Rightarrow>
                 if String lib src = [] then Some ErrSourceNotURI
                 else if isRelationshipURI (String lib (ResolveReference lib src uri))
                 then Some ErrRelationshipsPartTarget
                 else None)
          else None)"

definition relationship_validate :: "'u url_lib \<Rightarrow> Relationship \<Rightarrow> opc_error option" where
  "relationship_validate lib r =
     (if trimSpace (ID r) = [] then Some ErrRelationshipIDBlank
      else if trimSpace (RelType r) = [] then Some ErrRelationshipTypeBlank
      else validateRelationshipTarget lib (sourceURI r) (TargetURI r) (TargetMode r))"

text \<open>The loop of \<^verbatim>\<open>validateRelationships\<close>, with the set \<open>ids\<close> of the identifiers seen
  so far.\<close>

fun validateRelationshipsFrom ::
    "'u url_lib \<Rightarrow> string set \<Rightarrow> Relationship list \<Rightarrow> opc_error option" where
  "validateRelationshipsFrom lib ids [] = None"
| "validateRelationshipsFrom lib ids (r # rs) =
     (case relationship_validate lib r of
        Some err \<Rightarrow> Some err
      | None \<Rightarrow>
          if ID r \<in> ids then Some ErrRelationshipIDNotUnique
          else validateRelationshipsFrom lib (insert (ID r) ids) rs)"

definition validateRelationships :: "'u url_lib \<Rightarrow> Relationship list \<Rightarrow> opc_error option" where
  "validateRelationships lib rs = validateRelationshipsFrom lib {} rs"





section \<open>Content types\<close>

text \<open>
  A Go map is a finite map. A \<^verbatim>\<open>nil\<close> map reads as the empty map and the code
  allocates it before the first write, so both are \<open>fmempty\<close>.
\<close>

record contentTypes =
  defaults :: "(string, string) fmap"
  overrides :: "(string, string) fmap"

definition newContentTypes :: contentTypes where
  "newContentTypes = \<lparr>defaults = fmempty, overrides = fmempty\<rparr>"

definition addOverride :: "contentTypes \<Rightarrow> string \<Rightarrow> string \<Rightarrow> contentTypes" where
  "addOverride c partName contentType = c\<lparr>overrides := fmupd partName contentType (overrides c)\<rparr>"

definition addDefault :: "contentTypes \<Rightarrow> string \<Rightarrow> string \<Rightarrow> contentTypes" where
  "addDefault c extension contentType = c\<lparr>defaults := fmupd extension contentType (defaults c)\<rparr>"

text \<open>
  \<^verbatim>\<open>contentTypes.add\<close>. Its first two lines parse the media type and format it again
  (package \<^verbatim>\<open>mime\<close> of the Go library): that is the parameter \<open>mimeFormat\<close>.
\<close>

definition contentTypes_add ::
    "(string \<Rightarrow> string) \<Rightarrow> contentTypes \<Rightarrow> string \<Rightarrow> string \<Rightarrow> contentTypes" where
  "contentTypes_add mimeFormat c partName contentType0 =
     (let contentType = mimeFormat contentType0;
          ext = toLower (Ext partName)
      in if length ext = 0 then addOverride c partName contentType
         else (let ext = drop 1 ext in
               case fmlookup (defaults c) ext of
                 Some currentType \<Rightarrow>
                   if currentType \<noteq> contentType then addOverride c partName contentType else c
               | None \<Rightarrow> addDefault c ext contentType))"

definition findType :: "contentTypes \<Rightarrow> string \<Rightarrow> opc_error + string" where
  "findType c name =
     (case fmlookup (overrides c) (toUpper name) of
        Some t \<Rightarrow> Inr t
      | None \<Rightarrow>
          (let ext = Ext name in
           case (if ext \<noteq> [] then fmlookup (defaults c) (drop 1 ext) else None) of
             Some t \<Rightarrow> Inr t
           | None \<Rightarrow> Inl (OpcError 208 name)))"

text \<open>The children of the \<open>Types\<close> element.\<close>

datatype contentTypeXML =
    DefaultXML string string
  | OverrideXML string string

record contentTypesXML =
  Types_xmlns :: string
  Types :: "contentTypeXML list"

fun isOverrideXML :: "contentTypeXML \<Rightarrow> bool" where
  "isOverrideXML (OverrideXML pn ct) = True"
| "isOverrideXML (DefaultXML e ct) = False"

text \<open>
  Go visits the entries of a map in an order that it leaves unspecified, and that changes
  from one \<^verbatim>\<open>range\<close> loop to the next. \<open>rangeOrder m kvs\<close>: the list \<open>kvs\<close> is one
  order in which a loop may visit the entries of \<open>m\<close>, each entry once.
\<close>

definition rangeOrder :: "('k, 'v) fmap \<Rightarrow> ('k \<times> 'v) list \<Rightarrow> bool" where
  "rangeOrder m kvs \<longleftrightarrow> distinct (map fst kvs) \<and> fmap_of_list kvs = m"

text \<open>\<^verbatim>\<open>contentTypes.toXML\<close> ranges over both maps, so it is a relation between the
  table and the values it may return.\<close>

inductive contentTypes_toXML :: "contentTypes \<Rightarrow> contentTypesXML \<Rightarrow> bool" where
  toXML: "rangeOrder (defaults c) ds \<Longrightarrow> rangeOrder (overrides c) os \<Longrightarrow>
    contentTypes_toXML c
      \<lparr>Types_xmlns = ''http://schemas.openxmlformats.org/package/2006/content-types'',
       Types = map (\<lambda>(e, ct). DefaultXML e ct) ds @ map (\<lambda>(pn, ct). OverrideXML pn ct) os\<rparr>"

text \<open>\<^verbatim>\<open>decodeContentTypes\<close>, from the children that the XML decoder has read.\<close>

fun decodeContentTypesFrom :: "contentTypes \<Rightarrow> contentTypeXML list \<Rightarrow> opc_error + contentTypes" where
  "decodeContentTypesFrom ct [] = Inr ct"
| "decodeContentTypesFrom ct (DefaultXML extension contentType # cs) =
     (let ext = toLower extension in
      if ext = [] then Inl (OpcError 206 ''/'')
      else if fmlookup (defaults ct) ext \<noteq> None then Inl (OpcError 205 ''/'')
      else decodeContentTypesFrom (addDefault ct ext contentType) cs)"
| "decodeContentTypesFrom ct (OverrideXML name contentType # cs) =
     (let partName = toUpper name in
      if fmlookup (overrides ct) partName \<noteq> None then Inl (OpcError 205 partName)
      else decodeContentTypesFrom (addOverride ct partName contentType) cs)"

definition decodeContentTypes :: "contentTypesXML \<Rightarrow> opc_error + contentTypes" where
  "decodeContentTypes x = decodeContentTypesFrom newContentTypes (Types x)"

section \<open>The package\<close>

text \<open>A part, with the three fields that the tests of the writer give it.\<close>

record Part =
  Name :: string
  ContentType :: string
  Relationships :: "Relationship list"

record pkg =
  parts :: "(string, Part) fmap"
  contentTypes :: contentTypes

definition newPackage :: pkg where
  "newPackage = \<lparr>parts = fmempty, contentTypes = newContentTypes\<rparr>"

definition partExists :: "pkg \<Rightarrow> string \<Rightarrow> bool" where
  "partExists p partName \<longleftrightarrow> fmlookup (parts p) (toUpper partName) \<noteq> None"

definition checkStringsPrefixCollision :: "string \<Rightarrow> string \<Rightarrow> bool" where
  "checkStringsPrefixCollision s1 s2 \<longleftrightarrow>
     hasPrefix s1 s2 \<and> length s1 > length s2 \<and> s1 ! length s2 = CHR ''/''"

text \<open>
  \<^verbatim>\<open>checkPrefixCollision\<close> fills the slice \<open>keys\<close> with \<open>uri\<close> and the keys of the
  map, in the order of the \<^verbatim>\<open>range\<close> loop, and sorts it. The sorted slice is the same
  for every such order (lemma \<open>sort_rangeOrder\<close> below), so the model sorts one of them.
  \<open>collisionScan keys uri i\<close> is the second loop, from index \<open>i\<close> on.
\<close>

definition sortedKeys :: "string \<Rightarrow> (string, 'v) fmap \<Rightarrow> string list" where
  "sortedKeys uri m = sort (uri # sorted_list_of_fset (fmdom m))"

function collisionScan :: "string list \<Rightarrow> string \<Rightarrow> nat \<Rightarrow> bool" where
  "collisionScan keys uri i =
     (if i < length keys then
        (if keys ! i = uri then
           (if i > 0 \<and> checkStringsPrefixCollision uri (keys ! (i - 1)) then True
            else if i < length keys - 1 \<and> checkStringsPrefixCollision (keys ! (i + 1)) uri then True
            else collisionScan keys uri (i + 1))
         else collisionScan keys uri (i + 1))
      else False)"
  by pat_completeness auto
termination
  by (relation "measure (\<lambda>(keys, uri, i). length keys - i)") auto

declare collisionScan.simps [simp del]

definition checkPrefixCollision :: "pkg \<Rightarrow> string \<Rightarrow> bool" where
  "checkPrefixCollision p uri = collisionScan (sortedKeys uri (parts p)) uri 0"

text \<open>
  \<^verbatim>\<open>pkg.add\<close>. \<^verbatim>\<open>Part.validate\<close> is the parameter \<open>validate\<close> (\<open>None\<close>
  for a part that it accepts), and \<open>mimeFormat\<close> is the one of \<open>contentTypes_add\<close>.
\<close>

definition pkg_add ::
    "(Part \<Rightarrow> opc_error option) \<Rightarrow> (string \<Rightarrow> string) \<Rightarrow> pkg \<Rightarrow> Part \<Rightarrow> opc_error + pkg" where
  "pkg_add validate mimeFormat p part =
     (case validate part of
        Some err \<Rightarrow> Inl err
      | None \<Rightarrow>
          (let upperURI = toUpper (Name part) in
           if partExists p upperURI then Inl (OpcError 112 (Name part))
           else if checkPrefixCollision p upperURI then Inl (OpcError 111 (Name part))
           else Inr (p\<lparr>contentTypes := contentTypes_add mimeFormat (contentTypes p) (Name part) (ContentType part),
                      parts := fmupd upperURI part (parts p)\<rparr>)))"

section \<open>Example parts and packages\<close>

text \<open>The parts of the examples, all of content type \<^verbatim>\<open>a/b\<close>, and the packages that
  \<^verbatim>\<open>add\<close> builds from them.\<close>

definition mkPart :: "string \<Rightarrow> Part" where
  "mkPart name = \<lparr>Name = name, ContentType = ''a/b'', Relationships = []\<rparr>"

definition pkg_docs_a_xml :: pkg where
  "pkg_docs_a_xml =
     \<lparr>parts = fmupd ''/DOCS/A.XML'' (mkPart ''/docs/a.xml'') fmempty,
      contentTypes = \<lparr>defaults = fmupd ''xml'' ''a/b'' fmempty, overrides = fmempty\<rparr>\<rparr>"

definition pkg_docs :: pkg where
  "pkg_docs =
     \<lparr>parts = fmupd ''/DOCS'' (mkPart ''/docs'') fmempty,
      contentTypes = \<lparr>defaults = fmempty, overrides = fmupd ''/docs'' ''a/b'' fmempty\<rparr>\<rparr>"

definition pkg_a :: pkg where
  "pkg_a =
     \<lparr>parts = fmupd ''/A'' (mkPart ''/a'') fmempty,
      contentTypes = \<lparr>defaults = fmempty, overrides = fmupd ''/a'' ''a/b'' fmempty\<rparr>\<rparr>"

definition pkg_a_axml :: pkg where
  "pkg_a_axml =
     \<lparr>parts = fmupd ''/A.XML'' (mkPart ''/a.xml'') (fmupd ''/A'' (mkPart ''/a'') fmempty),
      contentTypes = \<lparr>defaults = fmupd ''xml'' ''a/b'' fmempty, overrides = fmupd ''/a'' ''a/b'' fmempty\<rparr>\<rparr>"

definition pkg_a_axml_ab :: pkg where
  "pkg_a_axml_ab =
     \<lparr>parts = fmupd ''/A/B'' (mkPart ''/a/b'')
                (fmupd ''/A.XML'' (mkPart ''/a.xml'') (fmupd ''/A'' (mkPart ''/a'') fmempty)),
      contentTypes = \<lparr>defaults = fmupd ''xml'' ''a/b'' fmempty,
                       overrides = fmupd ''/a/b'' ''a/b'' (fmupd ''/a'' ''a/b'' fmempty)\<rparr>\<rparr>"

text \<open>
  An instance of the URL parameter for the examples. A reference is kept as its text; it is
  absolute when it has a scheme, a colon before the first slash; a reference that starts
  with a slash resolves to itself and any other one against the directory of the base. On
  the references of the examples, which have no dot segments, queries or escapes,
  \<^verbatim>\<open>net/url\<close> returns the same.
\<close>

definition plainURLs :: "string url_lib" where
  "plainURLs =
     \<lparr>Parse = (\<lambda>s. Some s),
      String = (\<lambda>u. u),
      IsAbs = (\<lambda>u. CHR '':'' \<in> set (takeWhile (\<lambda>c. c \<noteq> CHR ''/'') u)),
      ResolveReference = (\<lambda>base ref.
        if hasPrefix ref ''/'' then ref
        else rev (dropWhile (\<lambda>c. c \<noteq> CHR ''/'') (rev base)) @ ref)\<rparr>"

definition mkRelationship :: "string \<Rightarrow> string \<Rightarrow> string \<Rightarrow> TargetMode \<Rightarrow> Relationship" where
  "mkRelationship i src target mode =
     \<lparr>ID = i, RelType = ''http://example.org/rel'', TargetURI = target, TargetMode = mode,
      sourceURI = src\<rparr>"

text \<open>The table after \<^verbatim>\<open>add("/a.xml", "text/plain")\<close> and
  \<^verbatim>\<open>add("/c.xml", "text/html")\<close>, its serialization, and the table decoded from that.\<close>

definition ct_a_c :: contentTypes where
  "ct_a_c = \<lparr>defaults = fmupd ''xml'' ''text/plain'' fmempty,
             overrides = fmupd ''/c.xml'' ''text/html'' fmempty\<rparr>"

definition ct_a_c_xml :: contentTypesXML where
  "ct_a_c_xml =
     \<lparr>Types_xmlns = ''http://schemas.openxmlformats.org/package/2006/content-types'',
      Types = [DefaultXML ''xml'' ''text/plain'', OverrideXML ''/c.xml'' ''text/html'']\<rparr>"

definition ct_a_c_decoded :: contentTypes where
  "ct_a_c_decoded = \<lparr>defaults = fmupd ''xml'' ''text/plain'' fmempty,
             overrides = fmupd ''/C.XML'' ''text/html'' fmempty\<rparr>"

text \<open>The table after \<^verbatim>\<open>add("/a.xml", "text/plain")\<close> and
  \<^verbatim>\<open>add("/b.png", "image/png")\<close>.\<close>

definition ct_xml_png :: contentTypes where
  "ct_xml_png = \<lparr>defaults = fmupd ''png'' ''image/png'' (fmupd ''xml'' ''text/plain'' fmempty),
                 overrides = fmempty\<rparr>"

section \<open>Facts about strings\<close>

lemma upperChar_slash: "upperChar c = CHR ''/'' \<longleftrightarrow> c = CHR ''/''"
proof
  assume a: "upperChar c = CHR ''/''"
  show "c = CHR ''/''"
  proof (rule ccontr)
    assume n: "c \<noteq> CHR ''/''"
    with a have r: "CHR ''a'' \<le> c \<and> c \<le> CHR ''z''" and e: "char_of (of_char c - (32::nat)) = CHR ''/''"
      by (auto simp: upperChar_def split: if_splits)
    from r have "97 \<le> (of_char c :: nat)" "(of_char c :: nat) \<le> 122"
      by (simp_all add: less_eq_char_def)
    moreover from e have "(of_char (char_of (of_char c - (32::nat))) :: nat) = of_char (CHR ''/'')"
      by simp
    then have "(of_char c - 32) mod 256 = (47::nat)" by simp
    ultimately show False by simp
  qed
next
  assume "c = CHR ''/''"
  then show "upperChar c = CHR ''/''" by (simp add: upperChar_def)
qed

lemma toUpper_append: "toUpper (a @ b) = toUpper a @ toUpper b"
  by (simp add: toUpper_def)

lemma slash_toUpper: "CHR ''/'' \<in> set (toUpper s) \<longleftrightarrow> CHR ''/'' \<in> set s"
proof (induction s)
  case Nil
  then show ?case by (simp add: toUpper_def)
next
  case (Cons c s)
  have "CHR ''/'' = upperChar c \<longleftrightarrow> CHR ''/'' = c"
    using upperChar_slash[of c] by auto
  with Cons show ?case by (simp add: toUpper_def)
qed

lemma toLower_Nil_iff: "toLower s = [] \<longleftrightarrow> s = []"
  by (simp add: toLower_def)

lemma split_nonempty: "split s sep \<noteq> []"
  by (induction s) (auto split: list.splits)

lemma split_no_sep: "sep \<notin> set s \<Longrightarrow> split s sep = [s]"
  by (induction s) auto

lemma split_append_sep: "split (a @ sep # b) sep = split a sep @ split b sep"
proof (induction a)
  case Nil
  then show ?case by simp
next
  case (Cons c a)
  then show ?case using split_nonempty[of a sep]
    by (cases "split a sep") auto
qed

lemma hasPrefix_single: "hasPrefix s [c] \<longleftrightarrow> (\<exists>rest. s = c # rest)"
  by (cases s) (auto simp: hasPrefix_def)

section \<open>Serialized relationship targets\<close>

text \<open>
  C10. Serializing a relationship rewrites an Internal target that does not begin with a
  slash, a backslash or a dot: the emitted \<open>Target\<close> is the stored target with a slash in
  front, hence another string. An External relationship, and an Internal one whose target
  begins with one of the three characters, is emitted with its target as stored.
  \<^verbatim>\<open>encodeRelationships\<close> emits the relationships rewritten so, in their order.
\<close>

theorem relationship_toXML_target:
  "(TargetMode r = ModeInternal \<and> \<not> (\<exists>c rest. TargetURI r = c # rest \<and> c \<in> {CHR ''/'', CHR 0x5C, CHR ''.''})
      \<longrightarrow> Target_attr (relationship_toXML r) = CHR ''/'' # TargetURI r
          \<and> Target_attr (relationship_toXML r) \<noteq> TargetURI r)
   \<and> (TargetMode r = ModeExternal \<longrightarrow> Target_attr (relationship_toXML r) = TargetURI r)
   \<and> (TargetMode r = ModeInternal \<and> (\<exists>c rest. TargetURI r = c # rest \<and> c \<in> {CHR ''/'', CHR 0x5C, CHR ''.''})
      \<longrightarrow> Target_attr (relationship_toXML r) = TargetURI r)
   \<and> map Target_attr (RelsXML (encodeRelationships rs)) = map (Target_attr \<circ> relationship_toXML) rs"
  by (auto simp: relationship_toXML_def encodeRelationships_def hasPrefix_single
      ModeInternal_def ModeExternal_def Let_def)

theorem relationship_toXML_target_witness:
  "Target_attr (relationship_toXML
      \<lparr>ID = ''rId1'', RelType = ''t'', TargetURI = ''docs/a.xml'', TargetMode = ModeInternal, sourceURI = ''/''\<rparr>)
     = ''/docs/a.xml''
   \<and> Target_attr (relationship_toXML
      \<lparr>ID = ''rId2'', RelType = ''t'', TargetURI = ''docs/a.xml'', TargetMode = ModeExternal, sourceURI = ''/''\<rparr>)
     = ''docs/a.xml''
   \<and> Target_attr (relationship_toXML
      \<lparr>ID = ''rId3'', RelType = ''t'', TargetURI = ''./a.xml'', TargetMode = ModeInternal, sourceURI = ''/''\<rparr>)
     = ''./a.xml''"
  using relationship_toXML_target [of "\<lparr>ID = ''rId1'', RelType = ''t'', TargetURI = ''docs/a.xml'', TargetMode = ModeInternal, sourceURI = ''/''\<rparr>" "[]"]
    relationship_toXML_target [of "\<lparr>ID = ''rId2'', RelType = ''t'', TargetURI = ''docs/a.xml'', TargetMode = ModeExternal, sourceURI = ''/''\<rparr>" "[]"]
    relationship_toXML_target [of "\<lparr>ID = ''rId3'', RelType = ''t'', TargetURI = ''./a.xml'', TargetMode = ModeInternal, sourceURI = ''/''\<rparr>" "[]"]
  by (simp add: ModeInternal_def ModeExternal_def)

section \<open>Names of relationships parts\<close>

lemma isRelationshipURI_fold: "equalFold s t \<Longrightarrow> isRelationshipURI s = isRelationshipURI t"
  by (simp add: isRelationshipURI_def equalFold_def)

lemma isRelationshipURI_root: "isRelationshipURI ''/_rels/.rels''"
  by code_simp

lemma isRelationshipURI_pattern:
  assumes "name \<noteq> []" "CHR ''/'' \<notin> set name"
  shows "isRelationshipURI (dir @ ''/_rels/'' @ name @ ''.rels'')"
proof -
  let ?D = "toUpper dir" and ?N = "toUpper name"
  let ?last = "?N @ ''.RELS''"
  have c: "toUpper ''/_rels/'' = ''/_RELS/''" "toUpper ''.rels'' = ''.RELS''" by code_simp+
  have "toUpper (dir @ ''/_rels/'' @ name @ ''.rels'') = ?D @ ''/_RELS/'' @ ?N @ ''.RELS''"
    by (simp only: toUpper_append c)
  also have "\<dots> = ?D @ CHR ''/'' # (''_RELS'' @ CHR ''/'' # ?last)"
    by simp
  finally have up: "toUpper (dir @ ''/_rels/'' @ name @ ''.rels'') = ?D @ CHR ''/'' # (''_RELS'' @ CHR ''/'' # ?last)" .
  have ns: "CHR ''/'' \<notin> set ?last" using assms(2) by (simp add: slash_toUpper)
  have "split (?D @ CHR ''/'' # (''_RELS'' @ CHR ''/'' # ?last)) (CHR ''/'')
      = split ?D (CHR ''/'') @ split ''_RELS'' (CHR ''/'') @ split ?last (CHR ''/'')"
    by (simp only: split_append_sep)
  also have "split ''_RELS'' (CHR ''/'') = [''_RELS'']" by (rule split_no_sep) simp
  also have "split ?last (CHR ''/'') = [?last]" using ns by (rule split_no_sep)
  finally have seg: "split (?D @ CHR ''/'' # (''_RELS'' @ CHR ''/'' # ?last)) (CHR ''/'')
      = split ?D (CHR ''/'') @ [''_RELS'', ?last]" by simp
  let ?segs = "split ?D (CHR ''/'') @ [''_RELS'', ?last]"
  let ?n = "length (split ?D (CHR ''/''))"
  have n: "?n \<ge> 1" using split_nonempty[of ?D "CHR ''/''"] by (cases "split ?D (CHR ''/'')") auto
  have len: "length ?segs = ?n + 2" by simp
  have l1: "?segs ! (length ?segs - 1) = ?last" by (simp add: nth_append)
  have l2: "?segs ! (length ?segs - 2) = ''_RELS''" by (simp add: nth_append)
  have suf: "hasSuffix (?D @ CHR ''/'' # (''_RELS'' @ CHR ''/'' # ?last)) ''.RELS''"
    by (simp add: hasSuffix_def suffix_def)
  have ln: "length ?last > length ''.RELS''" using assms(1) by (simp add: toUpper_def)
  have ef: "equalFold ''_RELS'' ''_RELS''" by (simp add: equalFold_def)
  show ?thesis
    unfolding isRelationshipURI_def up Let_def seg
    using suf n ln ef l1 l2 len by (simp only: if_True if_False not_True_eq_False simp_thms split: if_splits) auto
qed

section \<open>Validating relationships\<close>

text \<open>
  C5. For a target that parses to a non-empty URI reference: in Internal mode an absolute
  target is rejected, and so is a relative target that resolves, against the source, to the
  name of a relationships part, with the error of the relationships part; such a name is
  \<^verbatim>\<open>/_rels/.rels\<close> or a path that ends in \<^verbatim>\<open>/_rels/\<close>, a non-empty file name and
  \<^verbatim>\<open>.rels\<close>, in any letter case. In External mode the same target passes.
\<close>

theorem validateRelationshipTarget_modes:
  assumes "Parse lib (trimSpace target) = Some uri" and "String lib uri \<noteq> []"
  shows "(IsAbs lib uri
            \<longrightarrow> validateRelationshipTarget lib source target ModeInternal = Some ErrTargetNotRelative)
    \<and> (\<not> IsAbs lib uri \<and> Parse lib (trimSpace source) = Some src \<and> String lib src \<noteq> []
        \<and> (equalFold (String lib (ResolveReference lib src uri)) ''/_rels/.rels''
           \<or> (\<exists>dir name. name \<noteq> [] \<and> CHR ''/'' \<notin> set name
                \<and> equalFold (String lib (ResolveReference lib src uri)) (dir @ ''/_rels/'' @ name @ ''.rels'')))
            \<longrightarrow> validateRelationshipTarget lib source target ModeInternal = Some ErrRelationshipsPartTarget)
    \<and> validateRelationshipTarget lib source target ModeExternal = None"
proof (intro conjI impI)
  assume "IsAbs lib uri"
  with assms show "validateRelationshipTarget lib source target ModeInternal = Some ErrTargetNotRelative"
    by (simp add: validateRelationshipTarget_def)
next
  assume a: "\<not> IsAbs lib uri \<and> Parse lib (trimSpace source) = Some src \<and> String lib src \<noteq> []
        \<and> (equalFold (String lib (ResolveReference lib src uri)) ''/_rels/.rels''
           \<or> (\<exists>dir name. name \<noteq> [] \<and> CHR ''/'' \<notin> set name
                \<and> equalFold (String lib (ResolveReference lib src uri)) (dir @ ''/_rels/'' @ name @ ''.rels'')))"
  then have "isRelationshipURI (String lib (ResolveReference lib src uri))"
    using isRelationshipURI_fold isRelationshipURI_root isRelationshipURI_pattern by blast
  with a assms show "validateRelationshipTarget lib source target ModeInternal = Some ErrRelationshipsPartTarget"
    by (simp add: validateRelationshipTarget_def ModeInternal_def ModeExternal_def)
next
  from assms show "validateRelationshipTarget lib source target ModeExternal = None"
    by (simp add: validateRelationshipTarget_def ModeInternal_def ModeExternal_def)
qed

theorem validateRelationshipTarget_modes_witness:
  "validateRelationshipTarget plainURLs ''/'' ''http://example.org/_rels/a.rels'' ModeInternal
     = Some ErrTargetNotRelative
   \<and> validateRelationshipTarget plainURLs ''/'' ''/_rels/.rels'' ModeInternal
     = Some ErrRelationshipsPartTarget
   \<and> validateRelationshipTarget plainURLs ''/docs/a.xml'' ''_rels/b.xml.rels'' ModeInternal
     = Some ErrRelationshipsPartTarget
   \<and> validateRelationshipTarget plainURLs ''/'' ''/_rels/.rels'' ModeExternal = None
   \<and> validateRelationshipTarget plainURLs ''/docs/a.xml'' ''_rels/b.xml.rels'' ModeExternal = None"
proof -
  have p1: "Parse plainURLs (trimSpace ''http://example.org/_rels/a.rels'') = Some ''http://example.org/_rels/a.rels''"
    and s1: "String plainURLs ''http://example.org/_rels/a.rels'' \<noteq> []"
    and a1: "IsAbs plainURLs ''http://example.org/_rels/a.rels''"
    by code_simp+
  have p2: "Parse plainURLs (trimSpace ''/_rels/.rels'') = Some ''/_rels/.rels''"
    and s2: "String plainURLs ''/_rels/.rels'' \<noteq> []"
    by code_simp+
  have h2: "\<not> IsAbs plainURLs ''/_rels/.rels'' \<and> Parse plainURLs (trimSpace ''/'') = Some ''/''
      \<and> String plainURLs ''/'' \<noteq> []
      \<and> equalFold (String plainURLs (ResolveReference plainURLs ''/'' ''/_rels/.rels'')) ''/_rels/.rels''"
    by code_simp
  have p3: "Parse plainURLs (trimSpace ''_rels/b.xml.rels'') = Some ''_rels/b.xml.rels''"
    and s3: "String plainURLs ''_rels/b.xml.rels'' \<noteq> []"
    by code_simp+
  have h3: "\<not> IsAbs plainURLs ''_rels/b.xml.rels'' \<and> Parse plainURLs (trimSpace ''/docs/a.xml'') = Some ''/docs/a.xml''
      \<and> String plainURLs ''/docs/a.xml'' \<noteq> []"
    by code_simp
  have r3: "String plainURLs (ResolveReference plainURLs ''/docs/a.xml'' ''_rels/b.xml.rels'')
      = ''/docs'' @ ''/_rels/'' @ ''b.xml'' @ ''.rels''"
    by code_simp
  have n3: "''b.xml'' \<noteq> [] \<and> CHR ''/'' \<notin> set ''b.xml''" by simp
  have e3: "equalFold (String plainURLs (ResolveReference plainURLs ''/docs/a.xml'' ''_rels/b.xml.rels''))
      (''/docs'' @ ''/_rels/'' @ ''b.xml'' @ ''.rels'')"
    by (simp only: r3 equalFold_def)
  note T1 = validateRelationshipTarget_modes [OF p1 s1, of "''/''"]
  note T2 = validateRelationshipTarget_modes [OF p2 s2, of "''/''" "''/''"]
  note T3 = validateRelationshipTarget_modes [OF p3 s3, of "''/docs/a.xml''" "''/docs/a.xml''"]
  from T1 a1 have c1: "validateRelationshipTarget plainURLs ''/'' ''http://example.org/_rels/a.rels'' ModeInternal
     = Some ErrTargetNotRelative" by blast
  from T2 h2 have c2: "validateRelationshipTarget plainURLs ''/'' ''/_rels/.rels'' ModeInternal
     = Some ErrRelationshipsPartTarget" by blast
  from T3 h3 e3 n3 have c3: "validateRelationshipTarget plainURLs ''/docs/a.xml'' ''_rels/b.xml.rels'' ModeInternal
     = Some ErrRelationshipsPartTarget" by blast
  from T2 have c4: "validateRelationshipTarget plainURLs ''/'' ''/_rels/.rels'' ModeExternal = None" by blast
  from T3 have c5: "validateRelationshipTarget plainURLs ''/docs/a.xml'' ''_rels/b.xml.rels'' ModeExternal = None" by blast
  from c1 c2 c3 c4 c5 show ?thesis by blast
qed

lemma relationship_validate_not_unique:
  "relationship_validate lib r \<noteq> Some ErrRelationshipIDNotUnique"
  by (auto simp: relationship_validate_def validateRelationshipTarget_def
      split: option.splits if_splits)

lemma validateRelationshipsFrom_not_unique:
  "validateRelationshipsFrom lib ids rs = Some ErrRelationshipIDNotUnique
    \<Longrightarrow> \<not> distinct (map ID rs) \<or> (\<exists>r \<in> set rs. ID r \<in> ids)"
proof (induction rs arbitrary: ids)
  case Nil
  then show ?case by simp
next
  case (Cons r rs)
  show ?case
  proof (cases "relationship_validate lib r")
    case (Some e)
    with Cons.prems relationship_validate_not_unique[of lib r] show ?thesis by simp
  next
    case None
    show ?thesis
    proof (cases "ID r \<in> ids")
      case True
      then show ?thesis by simp
    next
      case False
      with None Cons.prems
      have "validateRelationshipsFrom lib (insert (ID r) ids) rs = Some ErrRelationshipIDNotUnique"
        by simp
      from Cons.IH[OF this] show ?thesis by (auto simp: image_iff) metis+
    qed
  qed
qed

lemma validateRelationshipsFrom_valid:
  "\<forall>r \<in> set rs. relationship_validate lib r = None
    \<Longrightarrow> validateRelationshipsFrom lib ids rs
        = (if distinct (map ID rs) \<and> (\<forall>r \<in> set rs. ID r \<notin> ids) then None
           else Some ErrRelationshipIDNotUnique)"
proof (induction rs arbitrary: ids)
  case Nil
  then show ?case by simp
next
  case (Cons r rs)
  then have v: "relationship_validate lib r = None"
    and vs: "\<forall>r \<in> set rs. relationship_validate lib r = None" by simp_all
  show ?case
  proof (cases "ID r \<in> ids")
    case True
    with v show ?thesis by simp
  next
    case False
    with v have "validateRelationshipsFrom lib ids (r # rs)
        = validateRelationshipsFrom lib (insert (ID r) ids) rs" by simp
    also have "\<dots> = (if distinct (map ID rs) \<and> (\<forall>x \<in> set rs. ID x \<notin> insert (ID r) ids) then None
           else Some ErrRelationshipIDNotUnique)"
      using vs by (rule Cons.IH)
    also have "\<dots> = (if distinct (map ID (r # rs)) \<and> (\<forall>x \<in> set (r # rs). ID x \<notin> ids) then None
           else Some ErrRelationshipIDNotUnique)"
      using False by (auto simp: image_iff) metis+
    finally show ?thesis .
  qed
qed

text \<open>
  C6. If the validation of a list of relationships fails with the error of the identifier
  that is not unique, two relationships of the list have the same identifier. If every
  relationship of the list passes its own validation, the validation of the list fails with
  that error exactly when two relationships have the same identifier, and passes otherwise.
  The check sees the list of one source only: two lists that are each without repetition
  both pass, whatever identifiers they share.
\<close>

theorem validateRelationships_unique_ids:
  "(validateRelationships lib rs = Some ErrRelationshipIDNotUnique \<longrightarrow> \<not> distinct (map ID rs))
   \<and> ((\<forall>r \<in> set rs. relationship_validate lib r = None)
      \<longrightarrow> (validateRelationships lib rs = Some ErrRelationshipIDNotUnique \<longleftrightarrow> \<not> distinct (map ID rs))
        \<and> (validateRelationships lib rs = None \<longleftrightarrow> distinct (map ID rs)))
   \<and> ((\<forall>r \<in> set rs \<union> set rs'. relationship_validate lib r = None)
        \<and> distinct (map ID rs) \<and> distinct (map ID rs')
      \<longrightarrow> validateRelationships lib rs = None \<and> validateRelationships lib rs' = None)"
proof (intro conjI impI)
  assume "validateRelationships lib rs = Some ErrRelationshipIDNotUnique"
  then show "\<not> distinct (map ID rs)"
    using validateRelationshipsFrom_not_unique[of lib "{}" rs] by (simp add: validateRelationships_def)
next
  assume "\<forall>r \<in> set rs. relationship_validate lib r = None"
  then show "validateRelationships lib rs = Some ErrRelationshipIDNotUnique \<longleftrightarrow> \<not> distinct (map ID rs)"
    and "validateRelationships lib rs = None \<longleftrightarrow> distinct (map ID rs)"
    by (simp_all add: validateRelationships_def validateRelationshipsFrom_valid)
next
  assume a: "(\<forall>r \<in> set rs \<union> set rs'. relationship_validate lib r = None)
        \<and> distinct (map ID rs) \<and> distinct (map ID rs')"
  then have "\<forall>r \<in> set rs. relationship_validate lib r = None"
    and "\<forall>r \<in> set rs'. relationship_validate lib r = None" by auto
  with a show "validateRelationships lib rs = None" and "validateRelationships lib rs' = None"
    by (simp_all add: validateRelationships_def validateRelationshipsFrom_valid)
qed

theorem validateRelationships_unique_ids_witness:
  "validateRelationships plainURLs
        [mkRelationship ''rId1'' ''/a.xml'' ''/b.xml'' ModeInternal,
         mkRelationship ''rId1'' ''/a.xml'' ''/c.xml'' ModeInternal]
      = Some ErrRelationshipIDNotUnique
   \<and> validateRelationships plainURLs
        [mkRelationship ''rId1'' ''/a.xml'' ''/b.xml'' ModeInternal,
         mkRelationship ''rId2'' ''/a.xml'' ''/c.xml'' ModeInternal] = None
   \<and> validateRelationships plainURLs
        [mkRelationship ''rId1'' ''/b.xml'' ''/c.xml'' ModeInternal] = None"
proof -
  let ?dup = "[mkRelationship ''rId1'' ''/a.xml'' ''/b.xml'' ModeInternal,
         mkRelationship ''rId1'' ''/a.xml'' ''/c.xml'' ModeInternal]"
  let ?a = "[mkRelationship ''rId1'' ''/a.xml'' ''/b.xml'' ModeInternal,
         mkRelationship ''rId2'' ''/a.xml'' ''/c.xml'' ModeInternal]"
  let ?b = "[mkRelationship ''rId1'' ''/b.xml'' ''/c.xml'' ModeInternal]"
  have v1: "\<forall>r \<in> set ?dup. relationship_validate plainURLs r = None" by code_simp
  have d1: "\<not> distinct (map ID ?dup)" by code_simp
  have v2: "(\<forall>r \<in> set ?a \<union> set ?b. relationship_validate plainURLs r = None)
        \<and> distinct (map ID ?a) \<and> distinct (map ID ?b)" by code_simp
  from validateRelationships_unique_ids [of plainURLs ?dup] v1 d1
  have c1: "validateRelationships plainURLs ?dup = Some ErrRelationshipIDNotUnique" by blast
  from validateRelationships_unique_ids [of plainURLs ?a ?b] v2
  have c2: "validateRelationships plainURLs ?a = None \<and> validateRelationships plainURLs ?b = None"
    by blast
  from c1 c2 show ?thesis by blast
qed

text \<open>
  Without the premise the equivalence fails: a relationship is validated before its
  identifier is looked up, so two relationships with a blank target and the same identifier
  fail with the error of the target.
\<close>

theorem validateRelationships_unique_ids_counterexample:
  "\<not> distinct (map ID [mkRelationship ''rId1'' ''/a.xml'' '' '' ModeInternal,
                        mkRelationship ''rId1'' ''/a.xml'' '' '' ModeInternal])
   \<and> validateRelationships plainURLs
        [mkRelationship ''rId1'' ''/a.xml'' '' '' ModeInternal,
         mkRelationship ''rId1'' ''/a.xml'' '' '' ModeInternal]
      = Some ErrTargetNotURI"
  by code_simp

section \<open>Creating a relationship\<close>





section \<open>Registering and resolving content types\<close>

lemma fmupd_same: "fmlookup m k = Some v \<Longrightarrow> fmupd k v m = m"
  by (rule fmap_ext) auto

text \<open>
  C4. \<^verbatim>\<open>add\<close> registers an override for the part name when the name has no extension.
  When it has one, \<^verbatim>\<open>add\<close> registers an override if the extension has a default of
  another type, and leaves the defaults as they are; otherwise the type is the default of
  the extension afterwards. The type registered is the one that the media-type formatter
  returns, the extension is in lower case. So \<^verbatim>\<open>/a.xml\<close> and \<^verbatim>\<open>/b.xml\<close> of type
  \<^verbatim>\<open>text/plain\<close> give one default for \<^verbatim>\<open>xml\<close> and no override, and
  \<^verbatim>\<open>/c.xml\<close> of type \<^verbatim>\<open>text/html\<close> then gives an override and the same default.
\<close>

theorem contentTypes_add_registers:
  "(Ext partName = []
      \<longrightarrow> contentTypes_add mimeFormat c partName t
          = c\<lparr>overrides := fmupd partName (mimeFormat t) (overrides c)\<rparr>)
   \<and> (Ext partName \<noteq> []
        \<and> fmlookup (defaults c) (drop 1 (toLower (Ext partName))) = Some d \<and> d \<noteq> mimeFormat t
      \<longrightarrow> contentTypes_add mimeFormat c partName t
          = c\<lparr>overrides := fmupd partName (mimeFormat t) (overrides c)\<rparr>)
   \<and> (Ext partName \<noteq> []
        \<and> \<not> (\<exists>d. fmlookup (defaults c) (drop 1 (toLower (Ext partName))) = Some d \<and> d \<noteq> mimeFormat t)
      \<longrightarrow> contentTypes_add mimeFormat c partName t
          = c\<lparr>defaults := fmupd (drop 1 (toLower (Ext partName))) (mimeFormat t) (defaults c)\<rparr>)
   \<and> (mimeFormat ''text/plain'' = ''text/plain'' \<and> mimeFormat ''text/html'' = ''text/html''
      \<longrightarrow> contentTypes_add mimeFormat
            (contentTypes_add mimeFormat newContentTypes ''/a.xml'' ''text/plain'') ''/b.xml'' ''text/plain''
          = \<lparr>defaults = fmupd ''xml'' ''text/plain'' fmempty, overrides = fmempty\<rparr>
        \<and> contentTypes_add mimeFormat
            \<lparr>defaults = fmupd ''xml'' ''text/plain'' fmempty, overrides = fmempty\<rparr> ''/c.xml'' ''text/html''
          = \<lparr>defaults = fmupd ''xml'' ''text/plain'' fmempty,
             overrides = fmupd ''/c.xml'' ''text/html'' fmempty\<rparr>)"
proof (intro conjI impI)
  assume "Ext partName = []"
  then show "contentTypes_add mimeFormat c partName t
          = c\<lparr>overrides := fmupd partName (mimeFormat t) (overrides c)\<rparr>"
    by (simp add: contentTypes_add_def toLower_def addOverride_def)
next
  assume "Ext partName \<noteq> []
        \<and> fmlookup (defaults c) (drop 1 (toLower (Ext partName))) = Some d \<and> d \<noteq> mimeFormat t"
  then show "contentTypes_add mimeFormat c partName t
          = c\<lparr>overrides := fmupd partName (mimeFormat t) (overrides c)\<rparr>"
    by (simp add: contentTypes_add_def toLower_Nil_iff addOverride_def)
next
  assume a: "Ext partName \<noteq> []
        \<and> \<not> (\<exists>d. fmlookup (defaults c) (drop 1 (toLower (Ext partName))) = Some d \<and> d \<noteq> mimeFormat t)"
  show "contentTypes_add mimeFormat c partName t
          = c\<lparr>defaults := fmupd (drop 1 (toLower (Ext partName))) (mimeFormat t) (defaults c)\<rparr>"
  proof (cases "fmlookup (defaults c) (drop 1 (toLower (Ext partName)))")
    case None
    with a show ?thesis
      by (simp add: contentTypes_add_def toLower_Nil_iff addDefault_def)
  next
    case (Some d)
    with a have d: "d = mimeFormat t" by blast
    from a have ne: "Ext partName \<noteq> []" by blast
    from Some d have l: "fmlookup (defaults c) (drop 1 (toLower (Ext partName))) = Some (mimeFormat t)"
      by simp
    from ne l show ?thesis
      by (simp add: contentTypes_add_def toLower_Nil_iff fmupd_same)
  qed
next
  assume f: "mimeFormat ''text/plain'' = ''text/plain'' \<and> mimeFormat ''text/html'' = ''text/html''"
  have e: "toLower (Ext ''/a.xml'') = ''.xml''" "toLower (Ext ''/b.xml'') = ''.xml''"
    "toLower (Ext ''/c.xml'') = ''.xml''"
    by code_simp+
  from f show "contentTypes_add mimeFormat
            (contentTypes_add mimeFormat newContentTypes ''/a.xml'' ''text/plain'') ''/b.xml'' ''text/plain''
          = \<lparr>defaults = fmupd ''xml'' ''text/plain'' fmempty, overrides = fmempty\<rparr>"
    by (simp add: contentTypes_add_def e addDefault_def newContentTypes_def Let_def)
  from f show "contentTypes_add mimeFormat
            \<lparr>defaults = fmupd ''xml'' ''text/plain'' fmempty, overrides = fmempty\<rparr> ''/c.xml'' ''text/html''
          = \<lparr>defaults = fmupd ''xml'' ''text/plain'' fmempty,
             overrides = fmupd ''/c.xml'' ''text/html'' fmempty\<rparr>"
    by (simp add: contentTypes_add_def e addOverride_def Let_def)
qed

theorem contentTypes_add_registers_witness:
  "contentTypes_add (\<lambda>t. t) newContentTypes ''/docs'' ''a/b''
     = \<lparr>defaults = fmempty, overrides = fmupd ''/docs'' ''a/b'' fmempty\<rparr>
   \<and> contentTypes_add (\<lambda>t. t) newContentTypes ''/a.xml'' ''text/plain''
     = \<lparr>defaults = fmupd ''xml'' ''text/plain'' fmempty, overrides = fmempty\<rparr>
   \<and> contentTypes_add (\<lambda>t. t)
        (contentTypes_add (\<lambda>t. t) newContentTypes ''/a.xml'' ''text/plain'') ''/b.xml'' ''text/plain''
     = \<lparr>defaults = fmupd ''xml'' ''text/plain'' fmempty, overrides = fmempty\<rparr>
   \<and> contentTypes_add (\<lambda>t. t)
        \<lparr>defaults = fmupd ''xml'' ''text/plain'' fmempty, overrides = fmempty\<rparr> ''/c.xml'' ''text/html''
     = \<lparr>defaults = fmupd ''xml'' ''text/plain'' fmempty,
        overrides = fmupd ''/c.xml'' ''text/html'' fmempty\<rparr>
   \<and> contentTypes_add (\<lambda>t. t)
        \<lparr>defaults = fmupd ''xml'' ''text/plain'' fmempty, overrides = fmempty\<rparr> ''/d.XML'' ''text/css''
     = \<lparr>defaults = fmupd ''xml'' ''text/plain'' fmempty,
        overrides = fmupd ''/d.XML'' ''text/css'' fmempty\<rparr>"
proof -
  let ?xml = "\<lparr>defaults = fmupd ''xml'' ''text/plain'' fmempty, overrides = fmempty\<rparr>"
  note T1 = contentTypes_add_registers [where mimeFormat = "\<lambda>t. t" and c = newContentTypes
      and partName = "''/docs''" and t = "''a/b''"]
  note T2 = contentTypes_add_registers [where mimeFormat = "\<lambda>t. t" and c = ?xml
      and partName = "''/d.XML''" and t = "''text/css''" and d = "''text/plain''"]
  note T3 = contentTypes_add_registers [where mimeFormat = "\<lambda>t. t" and c = newContentTypes
      and partName = "''/a.xml''" and t = "''text/plain''"]
  have h1: "Ext ''/docs'' = []" by code_simp
  have h2: "Ext ''/d.XML'' \<noteq> []
        \<and> fmlookup (defaults ?xml) (drop 1 (toLower (Ext ''/d.XML''))) = Some ''text/plain''
        \<and> ''text/plain'' \<noteq> ''text/css''"
    by code_simp
  have "Ext ''/a.xml'' \<noteq> []" by code_simp
  then have h3: "Ext ''/a.xml'' \<noteq> []
        \<and> \<not> (\<exists>d. fmlookup (defaults newContentTypes) (drop 1 (toLower (Ext ''/a.xml''))) = Some d
                \<and> d \<noteq> ''text/plain'')"
    by (simp add: newContentTypes_def)
  have r1: "contentTypes_add (\<lambda>t. t) newContentTypes ''/docs'' ''a/b''
      = newContentTypes\<lparr>overrides := fmupd ''/docs'' ''a/b'' (overrides newContentTypes)\<rparr>"
    using T1 h1 by blast
  have r2: "contentTypes_add (\<lambda>t. t) ?xml ''/d.XML'' ''text/css''
      = ?xml\<lparr>overrides := fmupd ''/d.XML'' ''text/css'' (overrides ?xml)\<rparr>"
    using T2 h2 by blast
  have r3: "contentTypes_add (\<lambda>t. t) newContentTypes ''/a.xml'' ''text/plain''
      = newContentTypes\<lparr>defaults := fmupd (drop 1 (toLower (Ext ''/a.xml''))) ''text/plain''
          (defaults newContentTypes)\<rparr>"
    using T3 h3 by blast
  have r4: "contentTypes_add (\<lambda>t. t)
            (contentTypes_add (\<lambda>t. t) newContentTypes ''/a.xml'' ''text/plain'') ''/b.xml'' ''text/plain''
          = ?xml
        \<and> contentTypes_add (\<lambda>t. t) ?xml ''/c.xml'' ''text/html''
          = \<lparr>defaults = fmupd ''xml'' ''text/plain'' fmempty,
             overrides = fmupd ''/c.xml'' ''text/html'' fmempty\<rparr>"
    using T1 by blast
  have e1: "newContentTypes\<lparr>overrides := fmupd ''/docs'' ''a/b'' (overrides newContentTypes)\<rparr>
      = \<lparr>defaults = fmempty, overrides = fmupd ''/docs'' ''a/b'' fmempty\<rparr>"
    by (simp add: newContentTypes_def)
  have e2: "?xml\<lparr>overrides := fmupd ''/d.XML'' ''text/css'' (overrides ?xml)\<rparr>
      = \<lparr>defaults = fmupd ''xml'' ''text/plain'' fmempty,
        overrides = fmupd ''/d.XML'' ''text/css'' fmempty\<rparr>"
    by simp
  have e3: "newContentTypes\<lparr>defaults := fmupd (drop 1 (toLower (Ext ''/a.xml''))) ''text/plain''
          (defaults newContentTypes)\<rparr> = ?xml"
    by code_simp
  from r1 e1 r2 e2 r3 e3 r4 show ?thesis
    by (simp only:)
qed

text \<open>
  C3. \<^verbatim>\<open>findType\<close> looks for the upper-case name among the overrides and for the
  extension as written among the defaults, while \<^verbatim>\<open>add\<close> stores an override under the
  name as written and a default under the lower-case extension. After
  \<^verbatim>\<open>add("/c", "text/html")\<close> the name \<^verbatim>\<open>/c\<close> has no type; after
  \<^verbatim>\<open>add("/a.xml", "text/plain")\<close> the name \<^verbatim>\<open>/A.XML\<close> has none; and the override
  of \<^verbatim>\<open>/c.xml\<close> is not found, the default of its extension is returned instead.
\<close>

theorem findType_after_add:
  "findType (contentTypes_add (\<lambda>t. t) newContentTypes ''/c'' ''text/html'') ''/c''
     = Inl (OpcError 208 ''/c'')
   \<and> findType (contentTypes_add (\<lambda>t. t) newContentTypes ''/a.xml'' ''text/plain'') ''/A.XML''
     = Inl (OpcError 208 ''/A.XML'')
   \<and> contentTypes_add (\<lambda>t. t) (contentTypes_add (\<lambda>t. t) newContentTypes ''/a.xml'' ''text/plain'')
        ''/c.xml'' ''text/html'' = ct_a_c
   \<and> findType ct_a_c ''/c.xml'' = Inr ''text/plain''"
  by code_simp

section \<open>Serialized content types\<close>

lemma rangeOrder_set: 
  assumes "rangeOrder m kvs"
  shows "set kvs = {(k, v). fmlookup m k = Some v}"
proof -
  from assms have d: "distinct (map fst kvs)" and m: "m = fmap_of_list kvs"
    by (simp_all add: rangeOrder_def)
  show ?thesis
    using d by (auto simp: m fmlookup_of_list)
qed

lemma rangeOrder_distinct: "rangeOrder m kvs \<Longrightarrow> distinct kvs"
  by (auto simp: rangeOrder_def distinct_map)

lemma rangeOrder_mset:
  assumes "rangeOrder m kvs" "rangeOrder m kvs'"
  shows "mset kvs = mset kvs'"
proof -
  from assms have "set kvs = set kvs'" by (simp add: rangeOrder_set)
  moreover from assms have "distinct kvs" "distinct kvs'" by (simp_all add: rangeOrder_distinct)
  ultimately show ?thesis by (simp add: set_eq_iff_mset_eq_distinct)
qed

text \<open>
  C8. Any two values that \<^verbatim>\<open>toXML\<close> may return for one table have the same namespace
  and the same entries: one \<open>Default\<close> for each extension of the table and one
  \<open>Override\<close> for each part name, each once, and no \<open>Override\<close> before a
  \<open>Default\<close>. The order of the entries inside the two groups is the order of the
  \<^verbatim>\<open>range\<close> loops.
\<close>

theorem contentTypes_toXML_entries:
  assumes "contentTypes_toXML c x" and "contentTypes_toXML c y"
  shows "Types_xmlns x = Types_xmlns y
    \<and> mset (Types x) = mset (Types y)
    \<and> set (Types x) = {DefaultXML e t | e t. fmlookup (defaults c) e = Some t}
                        \<union> {OverrideXML pn t | pn t. fmlookup (overrides c) pn = Some t}
    \<and> distinct (Types x)
    \<and> sorted_wrt (\<lambda>a b. \<not> (isOverrideXML a \<and> \<not> isOverrideXML b)) (Types x)"
proof -
  from assms(1) obtain ds os where ds: "rangeOrder (defaults c) ds" and os: "rangeOrder (overrides c) os"
    and x: "x = \<lparr>Types_xmlns = ''http://schemas.openxmlformats.org/package/2006/content-types'',
       Types = map (\<lambda>(e, ct). DefaultXML e ct) ds @ map (\<lambda>(pn, ct). OverrideXML pn ct) os\<rparr>"
    by (auto elim: contentTypes_toXML.cases)
  from assms(2) obtain ds' os' where ds': "rangeOrder (defaults c) ds'" and os': "rangeOrder (overrides c) os'"
    and y: "y = \<lparr>Types_xmlns = ''http://schemas.openxmlformats.org/package/2006/content-types'',
       Types = map (\<lambda>(e, ct). DefaultXML e ct) ds' @ map (\<lambda>(pn, ct). OverrideXML pn ct) os'\<rparr>"
    by (auto elim: contentTypes_toXML.cases)
  have ns: "Types_xmlns x = Types_xmlns y" by (simp add: x y)
  from ds ds' have "mset ds = mset ds'" by (rule rangeOrder_mset)
  moreover from os os' have "mset os = mset os'" by (rule rangeOrder_mset)
  ultimately have ms: "mset (Types x) = mset (Types y)" by (simp add: x y)
  have st: "set (Types x) = {DefaultXML e t | e t. fmlookup (defaults c) e = Some t}
                        \<union> {OverrideXML pn t | pn t. fmlookup (overrides c) pn = Some t}"
    using rangeOrder_set[OF ds] rangeOrder_set[OF os] by (auto simp: x image_iff)
  have "inj_on (\<lambda>(e, ct). DefaultXML e ct) (set ds)" "inj_on (\<lambda>(pn, ct). OverrideXML pn ct) (set os)"
    by (auto simp: inj_on_def)
  then have di: "distinct (Types x)"
    using rangeOrder_distinct[OF ds] rangeOrder_distinct[OF os] by (auto simp: x distinct_map)
  have so: "sorted_wrt (\<lambda>a b. \<not> (isOverrideXML a \<and> \<not> isOverrideXML b)) (Types x)"
    by (auto simp: x sorted_wrt_append sorted_wrt_map case_prod_beta)
  from ns ms st di so show ?thesis by blast
qed

theorem contentTypes_toXML_entries_witness:
  "contentTypes_toXML ct_xml_png
     \<lparr>Types_xmlns = ''http://schemas.openxmlformats.org/package/2006/content-types'',
      Types = [DefaultXML ''xml'' ''text/plain'', DefaultXML ''png'' ''image/png'']\<rparr>
   \<and> contentTypes_toXML ct_xml_png
     \<lparr>Types_xmlns = ''http://schemas.openxmlformats.org/package/2006/content-types'',
      Types = [DefaultXML ''png'' ''image/png'', DefaultXML ''xml'' ''text/plain'']\<rparr>
   \<and> mset [DefaultXML ''xml'' ''text/plain'', DefaultXML ''png'' ''image/png'']
     = mset [DefaultXML ''png'' ''image/png'', DefaultXML ''xml'' ''text/plain'']"
proof -
  let ?x = "\<lparr>Types_xmlns = ''http://schemas.openxmlformats.org/package/2006/content-types'',
      Types = [DefaultXML ''xml'' ''text/plain'', DefaultXML ''png'' ''image/png'']\<rparr>"
  let ?y = "\<lparr>Types_xmlns = ''http://schemas.openxmlformats.org/package/2006/content-types'',
      Types = [DefaultXML ''png'' ''image/png'', DefaultXML ''xml'' ''text/plain'']\<rparr>"
  have o: "rangeOrder (overrides ct_xml_png) []"
    by (simp add: rangeOrder_def ct_xml_png_def)
  have "rangeOrder (defaults ct_xml_png) [(''xml'', ''text/plain''), (''png'', ''image/png'')]"
    by code_simp
  from contentTypes_toXML.toXML [OF this o] have x: "contentTypes_toXML ct_xml_png ?x" by simp
  have "rangeOrder (defaults ct_xml_png) [(''png'', ''image/png''), (''xml'', ''text/plain'')]"
    by code_simp
  from contentTypes_toXML.toXML [OF this o] have y: "contentTypes_toXML ct_xml_png ?y" by simp
  from contentTypes_toXML_entries [OF x y] have "mset (Types ?x) = mset (Types ?y)" by blast
  then have "mset [DefaultXML ''xml'' ''text/plain'', DefaultXML ''png'' ''image/png'']
     = mset [DefaultXML ''png'' ''image/png'', DefaultXML ''xml'' ''text/plain'']"
    by (simp only: contentTypesXML.select_convs)
  with x y show ?thesis by blast
qed

text \<open>
  The order is not determined: a table with two defaults, as two calls of \<^verbatim>\<open>add\<close>
  build it, has two serializations.
\<close>

theorem contentTypes_toXML_order_counterexample:
  "contentTypes_toXML ct_xml_png
     \<lparr>Types_xmlns = ''http://schemas.openxmlformats.org/package/2006/content-types'',
      Types = [DefaultXML ''xml'' ''text/plain'', DefaultXML ''png'' ''image/png'']\<rparr>
   \<and> contentTypes_toXML ct_xml_png
     \<lparr>Types_xmlns = ''http://schemas.openxmlformats.org/package/2006/content-types'',
      Types = [DefaultXML ''png'' ''image/png'', DefaultXML ''xml'' ''text/plain'']\<rparr>
   \<and> [DefaultXML ''xml'' ''text/plain'', DefaultXML ''png'' ''image/png'']
     \<noteq> [DefaultXML ''png'' ''image/png'', DefaultXML ''xml'' ''text/plain'']
   \<and> contentTypes_add (\<lambda>t. t) (contentTypes_add (\<lambda>t. t) newContentTypes ''/a.xml'' ''text/plain'')
        ''/b.png'' ''image/png'' = ct_xml_png"
proof -
  have o: "rangeOrder (overrides ct_xml_png) []"
    by (simp add: rangeOrder_def ct_xml_png_def)
  have "rangeOrder (defaults ct_xml_png) [(''xml'', ''text/plain''), (''png'', ''image/png'')]"
    by code_simp
  from contentTypes_toXML.toXML [OF this o] have x: "contentTypes_toXML ct_xml_png
     \<lparr>Types_xmlns = ''http://schemas.openxmlformats.org/package/2006/content-types'',
      Types = [DefaultXML ''xml'' ''text/plain'', DefaultXML ''png'' ''image/png'']\<rparr>" by simp
  have "rangeOrder (defaults ct_xml_png) [(''png'', ''image/png''), (''xml'', ''text/plain'')]"
    by code_simp
  from contentTypes_toXML.toXML [OF this o] have y: "contentTypes_toXML ct_xml_png
     \<lparr>Types_xmlns = ''http://schemas.openxmlformats.org/package/2006/content-types'',
      Types = [DefaultXML ''png'' ''image/png'', DefaultXML ''xml'' ''text/plain'']\<rparr>" by simp
  have n: "[DefaultXML ''xml'' ''text/plain'', DefaultXML ''png'' ''image/png'']
     \<noteq> [DefaultXML ''png'' ''image/png'', DefaultXML ''xml'' ''text/plain'']" by simp
  have a: "contentTypes_add (\<lambda>t. t) (contentTypes_add (\<lambda>t. t) newContentTypes ''/a.xml'' ''text/plain'')
        ''/b.png'' ''image/png'' = ct_xml_png" by code_simp
  from x y n a show ?thesis by blast
qed

lemma toXML_ct_a_c: "contentTypes_toXML ct_a_c ct_a_c_xml"
proof -
  have "rangeOrder (defaults ct_a_c) [(''xml'', ''text/plain'')]"
    and "rangeOrder (overrides ct_a_c) [(''/c.xml'', ''text/html'')]"
    by (simp_all add: rangeOrder_def ct_a_c_def)
  then have "contentTypes_toXML ct_a_c
      \<lparr>Types_xmlns = ''http://schemas.openxmlformats.org/package/2006/content-types'',
       Types = map (\<lambda>(e, ct). DefaultXML e ct) [(''xml'', ''text/plain'')]
             @ map (\<lambda>(pn, ct). OverrideXML pn ct) [(''/c.xml'', ''text/html'')]\<rparr>"
    by (rule contentTypes_toXML.toXML)
  then show ?thesis by (simp add: ct_a_c_xml_def)
qed

text \<open>
  C7. Decoding what was encoded changes a resolved type: in the table built by the two
  calls of \<^verbatim>\<open>add\<close>, \<^verbatim>\<open>/c.xml\<close> resolves to the default \<^verbatim>\<open>text/plain\<close>; the
  decoder stores the override under \<^verbatim>\<open>/C.XML\<close>, where \<^verbatim>\<open>findType\<close> finds it, and
  in the decoded table \<^verbatim>\<open>/c.xml\<close> resolves to \<^verbatim>\<open>text/html\<close>.
\<close>

theorem decode_encode_changes_type:
  "contentTypes_toXML ct_a_c ct_a_c_xml
   \<and> decodeContentTypes ct_a_c_xml = Inr ct_a_c_decoded
   \<and> findType ct_a_c ''/c.xml'' = Inr ''text/plain''
   \<and> findType ct_a_c_decoded ''/c.xml'' = Inr ''text/html''"
proof -
  have "decodeContentTypes ct_a_c_xml = Inr ct_a_c_decoded
   \<and> findType ct_a_c ''/c.xml'' = Inr ''text/plain''
   \<and> findType ct_a_c_decoded ''/c.xml'' = Inr ''text/html''"
    by code_simp
  with toXML_ct_a_c show ?thesis by blast
qed

section \<open>The scan for prefix collisions\<close>

lemma collisionScan_iff:
  "collisionScan keys uri i \<longleftrightarrow>
     (\<exists>j. i \<le> j \<and> j < length keys \<and> keys ! j = uri \<and>
        ((0 < j \<and> checkStringsPrefixCollision uri (keys ! (j - 1)))
         \<or> (j < length keys - 1 \<and> checkStringsPrefixCollision (keys ! (j + 1)) uri)))"
  (is "?L keys uri i \<longleftrightarrow> ?R keys uri i")
proof (induction keys uri i rule: collisionScan.induct)
  case (1 keys uri i)
  let ?hit = "\<lambda>j. keys ! j = uri \<and>
        ((0 < j \<and> checkStringsPrefixCollision uri (keys ! (j - 1)))
         \<or> (j < length keys - 1 \<and> checkStringsPrefixCollision (keys ! (j + 1)) uri))"
  show ?case
  proof (cases "i < length keys")
    case False
    then show ?thesis by (subst collisionScan.simps) auto
  next
    case inb: True
    show ?thesis
    proof (cases "?hit i")
      case True
      then have "collisionScan keys uri i" using inb by (subst collisionScan.simps) auto
      moreover have "?R keys uri i" using True inb by blast
      ultimately show ?thesis by blast
    next
      case False
      then have step: "collisionScan keys uri i = collisionScan keys uri (i + 1)"
        using inb by (subst collisionScan.simps) auto
      have ih: "collisionScan keys uri (i + 1) \<longleftrightarrow> ?R keys uri (i + 1)"
      proof (cases "keys ! i = uri")
        case True
        with False inb "1.IH"(1) show ?thesis by blast
      next
        case False
        with inb "1.IH"(2) show ?thesis by blast
      qed
      have "?R keys uri i \<longleftrightarrow> ?R keys uri (i + 1)"
      proof
        assume "?R keys uri i"
        then obtain j where j: "i \<le> j" "j < length keys" "?hit j" by blast
        with False have "j \<noteq> i" by blast
        with j have "i + 1 \<le> j" by simp
        with j show "?R keys uri (i + 1)" by blast
      next
        assume "?R keys uri (i + 1)"
        then obtain j where j: "i + 1 \<le> j" "j < length keys" "?hit j" by blast
        then have "i \<le> j" by simp
        with j show "?R keys uri i" by blast
      qed
      with step ih show ?thesis by simp
    qed
  qed
qed

lemma set_sortedKeys: "set (sortedKeys uri m) = insert uri (fmdom' m)"
  unfolding sortedKeys_def by (simp only: set_sort list.set sorted_list_of_fset_simps fmdom'_alt_def)

lemma sorted_sortedKeys: "sorted (sortedKeys uri m)"
  unfolding sortedKeys_def by (rule sorted_sort)

lemma distinct_sortedKeys: "uri \<notin> fmdom' m \<Longrightarrow> distinct (sortedKeys uri m)"
  unfolding sortedKeys_def
  by (simp add: fmdom'_alt_def sorted_list_of_fset.rep_eq del: sort_key_simps)

lemma sort_rangeOrder:
  assumes "rangeOrder m kvs"
  shows "sort (uri # map fst kvs) = sortedKeys uri m"
proof -
  from assms have d: "distinct (map fst kvs)" and m: "m = fmap_of_list kvs"
    by (simp_all add: rangeOrder_def)
  have "set (map fst kvs) = set (sorted_list_of_fset (fmdom m))"
    by (simp add: m fset_of_list.rep_eq)
  moreover have "distinct (sorted_list_of_fset (fmdom m))"
    by (simp add: sorted_list_of_fset.rep_eq)
  ultimately have "mset (map fst kvs) = mset (sorted_list_of_fset (fmdom m))"
    using d by (simp only: set_eq_iff_mset_eq_distinct)
  then have "mset (sortedKeys uri m) = mset (uri # map fst kvs)"
    unfolding sortedKeys_def by (simp only: mset_sort mset.simps)
  then show ?thesis
    using sorted_sortedKeys by (rule properties_for_sort)
qed

lemma checkStringsPrefixCollision_irrefl: "\<not> checkStringsPrefixCollision s s"
  by (simp add: checkStringsPrefixCollision_def)

lemma checkPrefixCollision_sound:
  assumes "checkPrefixCollision p uri"
  shows "\<exists>k \<in> fmdom' (parts p). checkStringsPrefixCollision uri k \<or> checkStringsPrefixCollision k uri"
proof -
  let ?keys = "sortedKeys uri (parts p)"
  from assms obtain j where j: "j < length ?keys"
    and hit: "(0 < j \<and> checkStringsPrefixCollision uri (?keys ! (j - 1)))
         \<or> (j < length ?keys - 1 \<and> checkStringsPrefixCollision (?keys ! (j + 1)) uri)"
    unfolding checkPrefixCollision_def collisionScan_iff by blast
  from hit show ?thesis
  proof
    assume h: "0 < j \<and> checkStringsPrefixCollision uri (?keys ! (j - 1))"
    with j have "?keys ! (j - 1) \<in> set ?keys" by simp
    moreover from h have "?keys ! (j - 1) \<noteq> uri" using checkStringsPrefixCollision_irrefl by metis
    ultimately have "?keys ! (j - 1) \<in> fmdom' (parts p)" by (simp add: set_sortedKeys)
    with h show ?thesis by blast
  next
    assume h: "j < length ?keys - 1 \<and> checkStringsPrefixCollision (?keys ! (j + 1)) uri"
    then have "j + 1 < length ?keys" by auto
    then have "?keys ! (j + 1) \<in> set ?keys" by (rule nth_mem)
    moreover from h have "?keys ! (j + 1) \<noteq> uri" using checkStringsPrefixCollision_irrefl by metis
    ultimately have "?keys ! (j + 1) \<in> fmdom' (parts p)" by (simp add: set_sortedKeys)
    with h show ?thesis by blast
  qed
qed

section \<open>Adding a part\<close>

text \<open>
  C1. \<^verbatim>\<open>add\<close> does not fail with the collision error (111) for every part whose
  name is in the boundary-prefix relation with a name of the package. From the empty
  package, and with a validation that accepts the three parts, \<^verbatim>\<open>/a\<close>,
  \<^verbatim>\<open>/a.xml\<close> and \<^verbatim>\<open>/a/b\<close> are added one after the other, although the key
  \<^verbatim>\<open>/A\<close> of the package is a prefix of \<^verbatim>\<open>/A/B\<close> at a segment boundary:
  \<^verbatim>\<open>/A.XML\<close> sorts between the two, and the scan compares neighbours only.
\<close>

theorem pkg_add_misses_collision:
  "pkg_add (\<lambda>_. None) (\<lambda>t. t) newPackage (mkPart ''/a'') = Inr pkg_a
   \<and> pkg_add (\<lambda>_. None) (\<lambda>t. t) pkg_a (mkPart ''/a.xml'') = Inr pkg_a_axml
   \<and> pkg_add (\<lambda>_. None) (\<lambda>t. t) pkg_a_axml (mkPart ''/a/b'') = Inr pkg_a_axml_ab
   \<and> ''/A'' \<in> fmdom' (parts pkg_a_axml)
   \<and> checkStringsPrefixCollision (toUpper (Name (mkPart ''/a/b''))) ''/A''"
  by code_simp

text \<open>
  The examples of the specification behave as it says: \<^verbatim>\<open>/docs\<close> collides with
  \<^verbatim>\<open>/docs/a.xml\<close>, whichever is added last, and \<^verbatim>\<open>/docsx\<close> is added beside
  \<^verbatim>\<open>/docs/a.xml\<close>.
\<close>

lemma pkg_add_docs_examples:
  "pkg_add (\<lambda>_. None) (\<lambda>t. t) pkg_docs_a_xml (mkPart ''/docs'') = Inl (OpcError 111 ''/docs'')
   \<and> pkg_add (\<lambda>_. None) (\<lambda>t. t) pkg_docs (mkPart ''/docs/a.xml'') = Inl (OpcError 111 ''/docs/a.xml'')
   \<and> pkg_add (\<lambda>_. None) (\<lambda>t. t) pkg_docs_a_xml (mkPart ''/docsx'')
       = Inr \<lparr>parts = fmupd ''/DOCSX'' (mkPart ''/docsx'')
                        (fmupd ''/DOCS/A.XML'' (mkPart ''/docs/a.xml'') fmempty),
              contentTypes = \<lparr>defaults = fmupd ''xml'' ''a/b'' fmempty,
                               overrides = fmupd ''/docsx'' ''a/b'' fmempty\<rparr>\<rparr>"
  by code_simp

text \<open>
  C2. The scan looks at the two neighbours of the candidate in the sorted keys only, and
  that is not the pairwise check: in the package that holds \<^verbatim>\<open>/A\<close> and
  \<^verbatim>\<open>/A.XML\<close> the scan reports nothing for the candidate \<^verbatim>\<open>/A/B\<close>, of which the
  key \<^verbatim>\<open>/A\<close> is a prefix at a segment boundary. The dot sorts before the slash, so
  \<^verbatim>\<open>/A.XML\<close> is the predecessor of the candidate. Likewise the scan reports nothing
  for the candidate \<^verbatim>\<open>/A\<close> beside the keys \<^verbatim>\<open>/A.XML\<close> and \<^verbatim>\<open>/A/B\<close>.
\<close>

theorem checkPrefixCollision_misses:
  "\<not> checkPrefixCollision pkg_a_axml ''/A/B''
   \<and> ''/A'' \<in> fmdom' (parts pkg_a_axml)
   \<and> checkStringsPrefixCollision ''/A/B'' ''/A''
   \<and> sortedKeys ''/A/B'' (parts pkg_a_axml) = [''/A'', ''/A.XML'', ''/A/B'']
   \<and> \<not> checkPrefixCollision
        \<lparr>parts = fmupd ''/A/B'' (mkPart ''/a/b'') (fmupd ''/A.XML'' (mkPart ''/a.xml'') fmempty),
         contentTypes = newContentTypes\<rparr> ''/A''"
  by code_simp

end
